theory Spec2Isabelle
  imports Main "HOL-Library.Sublist"
begin

section \<open>Python values used by registry.py\<close>

text \<open>
  A Python \<open>str\<close> is a sequence of Unicode code points, so it is modelled as a list of
  natural numbers; \<open>lit\<close> turns an ASCII literal into such a string.  A \<open>Path\<close> is the
  list of its components below the directory of the script (\<open>Path(__file__).parent\<close>),
  and \<open>p / name\<close> appends one component.
\<close>

type_synonym pystr = "nat list"

type_synonym path = "pystr list"

definition lit :: "string \<Rightarrow> pystr" where
  "lit s = map of_char s"

text \<open>The exceptions that the modelled statements can raise.\<close>

datatype py_exception = OSError | UnicodeDecodeError | IndexError | KeyError | MarkupError

text \<open>A \<open>Dict[str, str]\<close>; \<open>dict_get d k dflt\<close> is \<open>d.get(k, dflt)\<close>.\<close>

type_synonym py_dict = "pystr \<rightharpoonup> pystr"

definition dict_get :: "py_dict \<Rightarrow> pystr \<Rightarrow> pystr \<Rightarrow> pystr" where
  "dict_get d k dflt = (case d k of None \<Rightarrow> dflt | Some v \<Rightarrow> v)"

text \<open>\<open>xs[i]\<close> for a non-negative index: out of range it raises \<open>IndexError\<close>.\<close>

definition subscript :: "'a list \<Rightarrow> nat \<Rightarrow> py_exception + 'a" where
  "subscript xs i = (if i < length xs then Inr (xs ! i) else Inl IndexError)"

subsection \<open>String methods\<close>

text \<open>\<open>s.startswith(p)\<close> and \<open>sub in s\<close>.\<close>

definition startswith :: "pystr \<Rightarrow> pystr \<Rightarrow> bool" where
  "startswith s p = prefix p s"

definition str_contains :: "pystr \<Rightarrow> pystr \<Rightarrow> bool" where
  "str_contains s sub = sublist sub s"

text \<open>
  \<open>s.split(sep, 1)\<close> for a separator of one character: the string itself when the
  separator does not occur, otherwise the part before its first occurrence and the part
  after it.
\<close>

definition split_once :: "nat \<Rightarrow> pystr \<Rightarrow> pystr list" where
  "split_once sep s =
     (case dropWhile (\<lambda>c. c \<noteq> sep) s of
        [] \<Rightarrow> [s]
      | _ # rest \<Rightarrow> [takeWhile (\<lambda>c. c \<noteq> sep) s, rest])"

text \<open>
  The code points for which \<open>str.isspace\<close> holds (\<open>_PyUnicode_IsWhitespace\<close>):
  U+0009..U+000D, U+001C..U+0020, U+0085, U+00A0, U+1680, U+2000..U+200A, U+2028, U+2029,
  U+202F, U+205F and U+3000.
\<close>

definition isspace :: "nat \<Rightarrow> bool" where
  "isspace c \<longleftrightarrow>
     (9 \<le> c \<and> c \<le> 13) \<or> (28 \<le> c \<and> c \<le> 32) \<or> c = 133 \<or> c = 160 \<or> c = 5760 \<or>
     (8192 \<le> c \<and> c \<le> 8202) \<or> c = 8232 \<or> c = 8233 \<or> c = 8239 \<or> c = 8287 \<or> c = 12288"

text \<open>
  \<open>s.strip()\<close> removes every leading and every trailing whitespace character;
  \<open>s.strip(chars)\<close> removes every leading and every trailing character that occurs in
  \<open>chars\<close>.
\<close>

definition strip_where :: "(nat \<Rightarrow> bool) \<Rightarrow> pystr \<Rightarrow> pystr" where
  "strip_where P s = rev (dropWhile P (rev (dropWhile P s)))"

definition strip :: "pystr \<Rightarrow> pystr" where
  "strip s = strip_where isspace s"

definition strip_chars :: "pystr \<Rightarrow> pystr \<Rightarrow> pystr" where
  "strip_chars chars s = strip_where (\<lambda>c. c \<in> set chars) s"

section \<open>The file system as the program observes it\<close>

text \<open>
  The program reads the disk through \<open>Path.exists\<close>, \<open>Path.is_dir\<close>, \<open>Path.iterdir\<close>
  and \<open>open\<close>.  A file system is the answer to each of these calls:
  \<^item> \<open>path_exists p\<close> and \<open>path_is_dir p\<close> are the answers of \<open>p.exists()\<close> and
    \<open>p.is_dir()\<close>.  Both absorb the errors \<open>ENOENT\<close>, \<open>ENOTDIR\<close>, \<open>EBADF\<close> and
    \<open>ELOOP\<close> of \<open>stat\<close> and answer \<open>False\<close>; every other \<open>OSError\<close> (a name that is
    too long, a directory that may not be searched) is raised;
  \<^item> \<open>path_str p\<close> is \<open>str(p)\<close>, the text of the path, which depends on where the script
    lies;
  \<^item> \<open>listdir p\<close> is the list of names \<open>p.iterdir()\<close> walks through (it yields \<open>p / name\<close>
    for each), or the \<open>OSError\<close> it raises;
  \<^item> \<open>read_text p\<close> is what \<open>open(p, encoding="utf-8")\<close> followed by \<open>f.read()\<close> gives:
    the decoded text, or the exception raised by opening or decoding;
  \<^item> \<open>read_lines p\<close> is what \<open>open(p, encoding="utf-8")\<close> followed by \<open>for line in f\<close>
    gives: the lines handed to the loop body, and the exception (an \<open>OSError\<close> or a
    \<open>UnicodeDecodeError\<close>, both subclasses of \<open>Exception\<close>) that ends the iteration
    early, if any.  A failing \<open>open\<close> is the case of no line and an exception.
\<close>

record filesystem =
  path_exists :: "path \<Rightarrow> py_exception + bool"
  path_is_dir :: "path \<Rightarrow> py_exception + bool"
  path_str :: "path \<Rightarrow> pystr"
  listdir :: "path \<Rightarrow> py_exception + pystr list"
  read_text :: "path \<Rightarrow> py_exception + pystr"
  read_lines :: "path \<Rightarrow> pystr list \<times> py_exception option"

text \<open>
  The console of rich: \<open>console.print(message)\<close> reads the message as markup.  It
  returns, or it raises (a \<open>MarkupError\<close> for a closing tag that matches no open tag).
  rich is a library, so the console is a parameter: it tells for each message which
  exception printing it raises, if any.
\<close>

type_synonym console = "pystr \<Rightarrow> py_exception option"

definition BASE_PATH :: path where
  "BASE_PATH = [lit ''google-fonts'']"

definition DIRS :: "pystr list" where
  "DIRS = [lit ''ofl'', lit ''apache'', lit ''ufl'']"

section \<open>Path Resolver: \<open>get_html_path\<close>\<close>

definition article_path :: "pystr \<Rightarrow> pystr \<Rightarrow> path" where
  "article_path dir_name font_name =
     BASE_PATH @ [dir_name, font_name, lit ''article'', lit ''ARTICLE.en_us.html'']"

definition desc_path :: "pystr \<Rightarrow> pystr \<Rightarrow> path" where
  "desc_path dir_name font_name =
     BASE_PATH @ [dir_name, font_name, lit ''DESCRIPTION.en_us.html'']"

text \<open>An exception of \<open>exists()\<close> is not caught: it leaves the function.\<close>

definition get_html_path ::
  "filesystem \<Rightarrow> pystr \<Rightarrow> pystr \<Rightarrow> py_exception + path option" where
  "get_html_path fs dir_name font_name =
     (case path_exists fs (article_path dir_name font_name) of
        Inl e \<Rightarrow> Inl e
      | Inr article_found \<Rightarrow>
          if article_found then Inr (Some (article_path dir_name font_name))
          else (case path_exists fs (desc_path dir_name font_name) of
                  Inl e \<Rightarrow> Inl e
                | Inr desc_found \<Rightarrow>
                    if desc_found then Inr (Some (desc_path dir_name font_name))
                    else Inr None))"

section \<open>Link Extractor: \<open>extract_github_link\<close>\<close>

text \<open>
  BeautifulSoup is a library, so the parser is a parameter of the model: it maps the text
  of a document to the parsed tree.  A node of the tree is a tag, with its name, its
  attribute dictionary and its children in document order, or a piece of text.
\<close>

datatype element =
    Tag pystr "pystr \<rightharpoonup> pystr" "element list"
  | NavigableString pystr

type_synonym html_parser = "pystr \<Rightarrow> element"

text \<open>The descendants of a node in document order, as \<open>find_all\<close> visits them.\<close>

fun descendants :: "element \<Rightarrow> element list" where
  "descendants (Tag name attrs children) = concat (map (\<lambda>c. c # descendants c) children)"
| "descendants (NavigableString s) = []"

text \<open>\<open>tag.get(key)\<close>: the value of an attribute, \<open>None\<close> when the tag has none.\<close>

fun tag_get :: "element \<Rightarrow> pystr \<Rightarrow> pystr option" where
  "tag_get (Tag name attrs children) key = attrs key"
| "tag_get (NavigableString s) key = None"

fun tag_name :: "element \<Rightarrow> pystr option" where
  "tag_name (Tag name attrs children) = Some name"
| "tag_name (NavigableString s) = None"

text \<open>
  \<open>soup.find_all(name, attr=True)\<close>: the descendant tags of that name that carry the
  attribute, in document order.
\<close>

definition find_all :: "element \<Rightarrow> pystr \<Rightarrow> pystr \<Rightarrow> element list" where
  "find_all soup name attr =
     filter (\<lambda>el. tag_name el = Some name \<and> tag_get el attr \<noteq> None) (descendants soup)"

text \<open>
  The comprehension \<open>[link["href"] for link in links if "github.com" in link["href"]]\<close>;
  \<open>link["href"]\<close> raises \<open>KeyError\<close> on a tag without the attribute.
\<close>

fun github_hrefs :: "element list \<Rightarrow> py_exception + pystr list" where
  "github_hrefs [] = Inr []"
| "github_hrefs (link # links) =
     (case tag_get link (lit ''href'') of
        None \<Rightarrow> Inl KeyError
      | Some href \<Rightarrow>
          (case github_hrefs links of
             Inl e \<Rightarrow> Inl e
           | Inr hrefs \<Rightarrow>
               Inr (if str_contains href (lit ''github.com'') then href # hrefs else hrefs)))"

definition extract_github_link ::
  "filesystem \<Rightarrow> html_parser \<Rightarrow> path \<Rightarrow> py_exception + pystr option" where
  "extract_github_link fs parse file_path =
     (case read_text fs file_path of
        Inl e \<Rightarrow> Inl e
      | Inr html_content \<Rightarrow>
          (case github_hrefs (find_all (parse html_content) (lit ''a'') (lit ''href'')) of
             Inl e \<Rightarrow> Inl e
           | Inr github_links \<Rightarrow>
               Inr (case github_links of [] \<Rightarrow> None | first # _ \<Rightarrow> Some first)))"

section \<open>Metadata Reader: \<open>get_metadata_entries\<close>\<close>

text \<open>
  The value of a field, from the part of the line after the first colon:
  \<open>rest.strip().strip('"')\<close>.  The quote is the code point 34, the colon 58.
\<close>

definition field_value :: "pystr \<Rightarrow> pystr" where
  "field_value rest = strip_chars [34] (strip rest)"

text \<open>
  The inner loop \<open>for entry in entries\<close> on one line: the first entry whose name followed
  by a colon starts the line stores \<open>line.split(":", 1)[1].strip().strip('"')\<close> under its
  name and leaves the loop (\<open>break\<close>).
\<close>

fun scan_entries :: "pystr \<Rightarrow> pystr list \<Rightarrow> py_dict \<Rightarrow> py_exception + py_dict" where
  "scan_entries line [] values = Inr values"
| "scan_entries line (entry # entries) values =
     (if startswith line (entry @ lit '':'')
      then (case subscript (split_once 58 line) 1 of
              Inl e \<Rightarrow> Inl e
            | Inr rest \<Rightarrow> Inr (values(entry \<mapsto> field_value rest)))
      else scan_entries line entries values)"

text \<open>
  The outer loop \<open>for line in f\<close>, on the lines the file hands over.  An exception raised
  by the body ends the loop; the dictionary keeps what was stored before.
\<close>

fun scan_lines :: "pystr list \<Rightarrow> pystr list \<Rightarrow> py_dict \<Rightarrow> py_dict \<times> py_exception option" where
  "scan_lines entries [] values = (values, None)"
| "scan_lines entries (line # lines) values =
     (case scan_entries line entries values of
        Inl e \<Rightarrow> (values, Some e)
      | Inr values' \<Rightarrow> scan_lines entries lines values')"

text \<open>
  The body of the \<open>try\<close> statement: the dictionary when control leaves it, and the
  exception that left it, if any (one raised by the loop body, else the one that ended
  the reading).
\<close>

definition try_read :: "filesystem \<Rightarrow> path \<Rightarrow> pystr list \<Rightarrow> py_dict \<times> py_exception option" where
  "try_read fs metadata_path entries =
     (case read_lines fs metadata_path of
        (lines, failure) \<Rightarrow>
          (case scan_lines entries lines Map.empty of
             (values, Some e) \<Rightarrow> (values, Some e)
           | (values, None) \<Rightarrow> (values, failure)))"

text \<open>
  The test \<open>metadata_path.exists()\<close> of line 52 stands before the \<open>try\<close>: what it raises
  leaves the function.  \<open>except Exception: pass\<close> drops an exception of the \<open>try\<close> body,
  and the list is built from the dictionary either way.
\<close>

definition get_metadata_entries ::
  "filesystem \<Rightarrow> path \<Rightarrow> pystr list \<Rightarrow> py_exception + pystr list" where
  "get_metadata_entries fs metadata_path entries =
     (case path_exists fs metadata_path of
        Inl e \<Rightarrow> Inl e
      | Inr found \<Rightarrow>
          if \<not> found then Inr (replicate (length entries) [])
          else (case try_read fs metadata_path entries of
                  (values, raised) \<Rightarrow> Inr (map (\<lambda>entry. dict_get values entry []) entries)))"

section \<open>Registry Builder: the scan of \<open>main\<close>\<close>

text \<open>
  The registry \<open>font_data\<close> maps a font identifier to its entry, itself a dictionary.
  The local variables \<open>dir_path\<close>, \<open>subdir\<close> and \<open>metadata_path\<close> of \<open>main\<close>:
\<close>

type_synonym registry = "pystr \<rightharpoonup> py_dict"

definition dir_path :: "pystr \<Rightarrow> path" where
  "dir_path dir_name = BASE_PATH @ [dir_name]"

definition subdir_path :: "pystr \<Rightarrow> pystr \<Rightarrow> path" where
  "subdir_path dir_name font_name = dir_path dir_name @ [font_name]"

definition metadata_path :: "pystr \<Rightarrow> pystr \<Rightarrow> path" where
  "metadata_path dir_name font_name = subdir_path dir_name font_name @ [lit ''METADATA.pb'']"

text \<open>
  Lines 89 to 94: the link of a font.  A \<open>Path\<close> is always true, so \<open>if html_path\<close> tests
  for \<open>None\<close>; \<open>if extracted_link\<close> is false for \<open>None\<close> and for the empty string.  An
  exception of \<open>get_html_path\<close> or of \<open>extract_github_link\<close> is not caught.
\<close>

definition font_link :: "filesystem \<Rightarrow> html_parser \<Rightarrow> pystr \<Rightarrow> pystr \<Rightarrow> py_exception + pystr" where
  "font_link fs parse dir_name font_name =
     (case get_html_path fs dir_name font_name of
        Inl e \<Rightarrow> Inl e
      | Inr None \<Rightarrow> Inr []
      | Inr (Some html_path) \<Rightarrow>
          (case extract_github_link fs parse html_path of
             Inl e \<Rightarrow> Inl e
           | Inr None \<Rightarrow> Inr []
           | Inr (Some extracted_link) \<Rightarrow>
               Inr (if extracted_link \<noteq> [] then extracted_link else [])))"

text \<open>
  Lines 89 to 99: the local variables \<open>name\<close>, \<open>display_name\<close> and \<open>link\<close> for the
  subdirectory \<open>font_name\<close> of a category.
\<close>

definition font_fields ::
  "filesystem \<Rightarrow> html_parser \<Rightarrow> pystr \<Rightarrow> pystr \<Rightarrow> py_exception + pystr \<times> pystr \<times> pystr" where
  "font_fields fs parse dir_name font_name =
     (case font_link fs parse dir_name font_name of
        Inl e \<Rightarrow> Inl e
      | Inr link \<Rightarrow>
          (case get_metadata_entries fs (metadata_path dir_name font_name)
                  [lit ''name'', lit ''display_name''] of
             Inl e \<Rightarrow> Inl e
           | Inr values \<Rightarrow>
               (case subscript values 0 of
                  Inl e \<Rightarrow> Inl e
                | Inr name \<Rightarrow>
                    (case subscript values 1 of
                       Inl e \<Rightarrow> Inl e
                     | Inr display_name \<Rightarrow> Inr (name, display_name, link)))))"

text \<open>Lines 101 to 105: the dictionary stored for a font.\<close>

definition make_entry :: "pystr \<Rightarrow> pystr \<Rightarrow> pystr \<Rightarrow> py_dict" where
  "make_entry name display_name link =
     [lit ''name'' \<mapsto> name, lit ''display_name'' \<mapsto> display_name, lit ''link'' \<mapsto> link]"

text \<open>The entry that the loop stores for the subdirectory \<open>font_name\<close> of a category.\<close>

definition font_entry :: "filesystem \<Rightarrow> html_parser \<Rightarrow> pystr \<Rightarrow> pystr \<Rightarrow> py_exception + py_dict" where
  "font_entry fs parse dir_name font_name =
     (case font_fields fs parse dir_name font_name of
        Inl e \<Rightarrow> Inl e
      | Inr (name, display_name, link) \<Rightarrow> Inr (make_entry name display_name link))"

text \<open>
  The two messages that the loops print, lines 79 to 81 and 106 to 108; the code point 39
  is the single quote.
\<close>

definition skip_message :: "filesystem \<Rightarrow> pystr \<Rightarrow> pystr" where
  "skip_message fs dir_name =
     lit ''[yellow]Directory '' @ path_str fs (dir_path dir_name) @
     lit '' does not exist, skipping.[/yellow]''"

definition processed_message :: "pystr \<Rightarrow> pystr \<Rightarrow> pystr \<Rightarrow> pystr \<Rightarrow> pystr" where
  "processed_message font_name name display_name link =
     lit ''[green]Processed '' @ font_name @ lit '': name='' @ [39] @ name @ [39] @
     lit '', display_name='' @ [39] @ display_name @ [39] @
     lit '', link='' @ [39] @ link @ [39] @ lit ''[/green]''"

text \<open>
  The inner loop \<open>for subdir in dir_path.iterdir()\<close>, on the names of the directory:
  \<open>subdir\<close> is \<open>dir_path / font_name\<close> and \<open>subdir.name\<close> is \<open>font_name\<close>.  The entry is
  stored before the progress line is printed; an exception of \<open>is_dir()\<close>, of the
  extraction or of the printing ends the run.
\<close>

fun process_subdirs ::
  "filesystem \<Rightarrow> html_parser \<Rightarrow> console \<Rightarrow> pystr \<Rightarrow> pystr list \<Rightarrow> registry \<Rightarrow>
     py_exception + registry" where
  "process_subdirs fs parse console dir_name [] font_data = Inr font_data"
| "process_subdirs fs parse console dir_name (font_name # names) font_data =
     (case path_is_dir fs (subdir_path dir_name font_name) of
        Inl e \<Rightarrow> Inl e
      | Inr is_dir \<Rightarrow>
          if \<not> is_dir then process_subdirs fs parse console dir_name names font_data
          else (case font_fields fs parse dir_name font_name of
                  Inl e \<Rightarrow> Inl e
                | Inr (name, display_name, link) \<Rightarrow>
                    (case console (processed_message font_name name display_name link) of
                       Some e \<Rightarrow> Inl e
                     | None \<Rightarrow>
                         process_subdirs fs parse console dir_name names
                           (font_data(font_name \<mapsto> make_entry name display_name link)))))"

text \<open>
  The outer loop \<open>for dir_name in DIRS\<close>.  A category that does not exist is skipped after
  the warning is printed.
\<close>

fun process_dirs ::
  "filesystem \<Rightarrow> html_parser \<Rightarrow> console \<Rightarrow> pystr list \<Rightarrow> registry \<Rightarrow>
     py_exception + registry" where
  "process_dirs fs parse console [] font_data = Inr font_data"
| "process_dirs fs parse console (dir_name # dirs) font_data =
     (case path_exists fs (dir_path dir_name) of
        Inl e \<Rightarrow> Inl e
      | Inr found \<Rightarrow>
          if \<not> found
          then (case console (skip_message fs dir_name) of
                  Some e \<Rightarrow> Inl e
                | None \<Rightarrow> process_dirs fs parse console dirs font_data)
          else (case listdir fs (dir_path dir_name) of
                  Inl e \<Rightarrow> Inl e
                | Inr names \<Rightarrow>
                    (case process_subdirs fs parse console dir_name names font_data of
                       Inl e \<Rightarrow> Inl e
                     | Inr font_data' \<Rightarrow> process_dirs fs parse console dirs font_data')))"

text \<open>
  \<open>main\<close> up to line 108: the registry that is then written to the JSON file, or the
  exception that ended the run before.
\<close>

definition main_font_data ::
  "filesystem \<Rightarrow> html_parser \<Rightarrow> console \<Rightarrow> py_exception + registry" where
  "main_font_data fs parse console = process_dirs fs parse console DIRS Map.empty"

section \<open>Notions used to state the properties\<close>

text \<open>
  An anchor element that carries a hyperlink target containing \<open>github.com\<close>, in the
  words of the specification of the Link Extractor.
\<close>

definition is_github_anchor :: "element \<Rightarrow> bool" where
  "is_github_anchor el =
     (tag_name el = Some (lit ''a'') \<and>
      (case tag_get el (lit ''href'') of
         None \<Rightarrow> False
       | Some target \<Rightarrow> str_contains target (lit ''github.com'')))"

text \<open>
  The category \<open>dir_name\<close> contains a font subdirectory named \<open>font_name\<close>: the category
  exists, its listing has the name, and the entry is a directory.
\<close>

definition has_subdir :: "filesystem \<Rightarrow> pystr \<Rightarrow> pystr \<Rightarrow> bool" where
  "has_subdir fs dir_name font_name =
     (path_exists fs (dir_path dir_name) = Inr True \<and>
      (case listdir fs (dir_path dir_name) of
         Inl e \<Rightarrow> False
       | Inr names \<Rightarrow> font_name \<in> set names) \<and>
      path_is_dir fs (subdir_path dir_name font_name) = Inr True)"

text \<open>
  The invariant of the two loops of \<open>main\<close>: every entry of the registry has the three
  keys, and its link is empty or contains \<open>github.com\<close>.
\<close>

definition links_ok :: "registry \<Rightarrow> bool" where
  "links_ok r \<longleftrightarrow> (\<forall>k e. r k = Some e \<longrightarrow>
     (\<exists>l. e (lit ''link'') = Some l \<and> (l = [] \<or> str_contains l (lit ''github.com''))) \<and>
     dom e = {lit ''name'', lit ''display_name'', lit ''link''})"

text \<open>
  The file system \<open>fs\<close> with the file \<open>p\<close> replaced by one that hands over \<open>lines\<close> and
  then ends without an exception.
\<close>

definition with_lines :: "filesystem \<Rightarrow> path \<Rightarrow> pystr list \<Rightarrow> filesystem" where
  "with_lines fs p lines = fs\<lparr>read_lines := (read_lines fs)(p := (lines, None))\<rparr>"

section \<open>Example trees\<close>

text \<open>
  Two documents and what the parser makes of them: the first holds the anchors
  \<open><a href="https://example.com">x</a>\<close> and \<open><a href="https://github.com/org/repo">y</a>\<close>,
  the second only the first of them.
\<close>

definition demo_html :: pystr where
  "demo_html = lit ''<a href=\"https://example.com\">x</a><a href=\"https://github.com/org/repo\">y</a>''"

definition plain_html :: pystr where
  "plain_html = lit ''<a href=\"https://example.com\">x</a>''"

definition demo_soup :: element where
  "demo_soup =
     Tag (lit ''[document]'') Map.empty
       [Tag (lit ''a'') [lit ''href'' \<mapsto> lit ''https://example.com''] [NavigableString (lit ''x'')],
        Tag (lit ''a'') [lit ''href'' \<mapsto> lit ''https://github.com/org/repo'']
          [NavigableString (lit ''y'')]]"

definition plain_soup :: element where
  "plain_soup =
     Tag (lit ''[document]'') Map.empty
       [Tag (lit ''a'') [lit ''href'' \<mapsto> lit ''https://example.com''] [NavigableString (lit ''x'')]]"

definition demo_parse :: html_parser where
  "demo_parse html = (if html = demo_html then demo_soup else plain_soup)"

text \<open>
  A tree with the categories \<open>ofl\<close> and \<open>ufl\<close> and without \<open>apache\<close>.  Both categories
  have a font directory \<open>foo\<close>; \<open>ofl\<close> also holds a plain file.  In \<open>ofl/foo\<close> there is
  only the description file, and the metadata file names \<open>name\<close> twice and wraps the
  display name in two layers of quotes.  In \<open>ufl/foo\<close> there are both HTML files, and
  reading the metadata file fails with a decoding error after its first line.  No call
  of \<open>exists()\<close> or \<open>is_dir()\<close> raises.
\<close>

definition demo_fs :: filesystem where
  "demo_fs =
     \<lparr> path_exists = (\<lambda>p. Inr (p \<in> set
          [dir_path (lit ''ofl''), subdir_path (lit ''ofl'') (lit ''foo''),
           dir_path (lit ''ofl'') @ [lit ''LICENSE.txt''],
           desc_path (lit ''ofl'') (lit ''foo''), metadata_path (lit ''ofl'') (lit ''foo''),
           dir_path (lit ''ufl''), subdir_path (lit ''ufl'') (lit ''foo''),
           subdir_path (lit ''ufl'') (lit ''foo'') @ [lit ''article''],
           article_path (lit ''ufl'') (lit ''foo''), desc_path (lit ''ufl'') (lit ''foo''),
           metadata_path (lit ''ufl'') (lit ''foo'')])),
       path_is_dir = (\<lambda>p. Inr (p \<in> set
          [dir_path (lit ''ofl''), subdir_path (lit ''ofl'') (lit ''foo''),
           dir_path (lit ''ufl''), subdir_path (lit ''ufl'') (lit ''foo''),
           subdir_path (lit ''ufl'') (lit ''foo'') @ [lit ''article'']])),
       path_str = (\<lambda>p. lit ''/srv/fonti'' @ concat (map (\<lambda>c. 47 # c) p)),
       listdir = (\<lambda>p.
          if p = dir_path (lit ''ofl'') then Inr [lit ''foo'', lit ''LICENSE.txt'']
          else if p = dir_path (lit ''ufl'') then Inr [lit ''foo'']
          else Inl OSError),
       read_text = (\<lambda>p.
          if p = article_path (lit ''ufl'') (lit ''foo'') then Inr demo_html
          else if p = desc_path (lit ''ofl'') (lit ''foo'') then Inr plain_html
          else if p = desc_path (lit ''ufl'') (lit ''foo'') then Inr plain_html
          else Inl OSError),
       read_lines = (\<lambda>p.
          if p = metadata_path (lit ''ofl'') (lit ''foo'')
          then ([lit ''name: \"First\"\<newline>'', lit ''name: \"Second\"\<newline>'',
                 lit ''display_name: \"\"x\"\"\<newline>''], None)
          else if p = metadata_path (lit ''ufl'') (lit ''foo'')
          then ([lit ''name: \"Foo\"\<newline>''], Some UnicodeDecodeError)
          else ([], Some OSError)) \<rparr>"

text \<open>A console that prints every message.\<close>

definition plain_console :: console where
  "plain_console message = None"

text \<open>The registry that \<open>main\<close> builds on this tree with this console.\<close>

definition demo_font_data :: registry where
  "demo_font_data =
     [lit ''foo'' \<mapsto>
        [lit ''name'' \<mapsto> lit ''Foo'',
         lit ''display_name'' \<mapsto> [],
         lit ''link'' \<mapsto> lit ''https://github.com/org/repo'']]"

text \<open>A file system with one metadata file and nothing else.\<close>

definition single_file_fs :: "path \<Rightarrow> pystr list \<Rightarrow> py_exception option \<Rightarrow> filesystem" where
  "single_file_fs p lines failure =
     \<lparr> path_exists = (\<lambda>q. Inr (q = p)),
       path_is_dir = (\<lambda>q. Inr False),
       path_str = (\<lambda>q. concat (map (\<lambda>c. 47 # c) q)),
       listdir = (\<lambda>q. Inl OSError),
       read_text = (\<lambda>q. Inl OSError),
       read_lines = (\<lambda>q. if q = p then (lines, failure) else ([], Some OSError)) \<rparr>"

text \<open>
  A disk without any file.  Every path is missing, and \<open>exists()\<close> answers \<open>False\<close>,
  except for a path with a component of more than 255 characters: there \<open>stat\<close> fails
  with \<open>ENAMETOOLONG\<close>, which \<open>exists()\<close> raises.
\<close>

definition empty_disk :: filesystem where
  "empty_disk =
     \<lparr> path_exists = (\<lambda>p. if list_ex (\<lambda>c. 255 < length c) p then Inl OSError else Inr False),
       path_is_dir = (\<lambda>p. if list_ex (\<lambda>c. 255 < length c) p then Inl OSError else Inr False),
       path_str = (\<lambda>p. concat (map (\<lambda>c. 47 # c) p)),
       listdir = (\<lambda>p. Inl OSError),
       read_text = (\<lambda>p. Inl OSError),
       read_lines = (\<lambda>p. ([], Some OSError)) \<rparr>"

text \<open>
  The same disk with the script in the directory \<open>/srv/x[/b]\<close>, and a console that raises
  on a message holding the closing tag \<open>[/b]\<close> and prints every other message: this is
  what rich does with the messages of \<open>main\<close>, none of which opens a tag \<open>[b]\<close>.
\<close>

definition markup_disk :: filesystem where
  "markup_disk = empty_disk\<lparr>path_str := (\<lambda>p. lit ''/srv/x[/b]'' @ concat (map (\<lambda>c. 47 # c) p))\<rparr>"

definition markup_console :: console where
  "markup_console message =
     (if str_contains message (lit ''[/b]'') then Some MarkupError else None)"

section \<open>Lemmas\<close>

subsection \<open>The metadata scan\<close>

lemma lit_colon: "lit '':'' = [58]"
  by (simp add: lit_def)

lemma startswith_colon_subscript:
  assumes "startswith line (entry @ lit '':'')"
  shows "subscript (split_once 58 line) 1 = Inr (tl (dropWhile (\<lambda>c. c \<noteq> 58) line))"
proof -
  from assms obtain rest where "line = entry @ 58 # rest"
    by (auto simp: startswith_def prefix_def lit_colon)
  then have "58 \<in> set line" by simp
  then have "dropWhile (\<lambda>c. c \<noteq> 58) line \<noteq> []"
    by (simp add: dropWhile_eq_Nil_conv)
  then show ?thesis
    by (cases "dropWhile (\<lambda>c. c \<noteq> 58) line") (simp_all add: split_once_def subscript_def)
qed

lemma scan_entries_find:
  "scan_entries line entries vals =
     Inr (case find (\<lambda>e. startswith line (e @ lit '':'')) entries of
            None \<Rightarrow> vals
          | Some e \<Rightarrow> vals(e \<mapsto> field_value (tl (dropWhile (\<lambda>c. c \<noteq> 58) line))))"
proof (induction entries)
  case Nil
  then show ?case by simp
next
  case (Cons entry entries)
  show ?case
  proof (cases "startswith line (entry @ lit '':'')")
    case True
    from startswith_colon_subscript [OF True]
    have "subscript (split_once 58 line) (Suc 0) = Inr (tl (dropWhile (\<lambda>c. c \<noteq> 58) line))"
      by simp
    with True show ?thesis by (simp add: fun_eq_iff)
  next
    case False
    with Cons show ?thesis by simp
  qed
qed

lemma scan_lines_no_exception: "snd (scan_lines entries lines vals) = None"
  by (induction lines arbitrary: vals) (simp_all add: scan_entries_find)

lemma scan_lines_append:
  "fst (scan_lines entries (xs @ ys) vals) =
     fst (scan_lines entries ys (fst (scan_lines entries xs vals)))"
  by (induction xs arbitrary: vals) (simp_all add: scan_entries_find)

lemma scan_lines_unmatched:
  assumes "\<forall>l\<in>set lines. find (\<lambda>e. startswith l (e @ lit '':'')) entries \<noteq> Some entry"
  shows "fst (scan_lines entries lines vals) entry = vals entry"
  using assms
proof (induction lines arbitrary: vals)
  case Nil
  then show ?case by simp
next
  case (Cons l lines)
  show ?case
  proof (cases "find (\<lambda>e. startswith l (e @ lit '':'')) entries")
    case None
    with Cons show ?thesis by (simp add: scan_entries_find)
  next
    case (Some e)
    with Cons.prems have "e \<noteq> entry" by auto
    with Cons Some show ?thesis by (simp add: scan_entries_find)
  qed
qed


lemma try_read_values:
  "read_lines fs p = (lines, failure) \<Longrightarrow>
     try_read fs p entries = (fst (scan_lines entries lines Map.empty), failure)"
  using scan_lines_no_exception [of entries lines Map.empty]
  by (cases "scan_lines entries lines Map.empty") (simp add: try_read_def)

lemma get_metadata_entries_values:
  "path_exists fs p = Inr True \<Longrightarrow> read_lines fs p = (lines, failure) \<Longrightarrow>
     get_metadata_entries fs p entries =
       Inr (map (\<lambda>entry. dict_get (fst (scan_lines entries lines Map.empty)) entry []) entries)"
  by (simp add: get_metadata_entries_def try_read_values)


lemma get_metadata_entries_raises:
  "path_exists fs p = Inl e \<Longrightarrow> get_metadata_entries fs p entries = Inl e"
  by (simp add: get_metadata_entries_def)

lemma length_get_metadata_entries:
  "get_metadata_entries fs p entries = Inr vs \<Longrightarrow> length vs = length entries"
  by (auto simp: get_metadata_entries_def split: sum.splits if_splits prod.splits)

subsection \<open>Stripping\<close>

lemma strip_where_sandwich:
  assumes "\<forall>c\<in>set l. P c" and "\<forall>c\<in>set r. P c"
    and "body = [] \<or> (\<not> P (hd body) \<and> \<not> P (last body))"
  shows "strip_where P (l @ body @ r) = body"
proof (cases "body = []")
  case True
  with assms(1,2) have "\<forall>c\<in>set (l @ body @ r). P c"
    by auto
  then have "dropWhile P (l @ body @ r) = []"
    by (simp only: dropWhile_eq_Nil_conv)
  then have "strip_where P (l @ body @ r) = []"
    by (simp only: strip_where_def rev.simps dropWhile.simps)
  with True show ?thesis by simp
next
  case False
  with assms(3) have hd: "\<not> P (hd body)" and last: "\<not> P (last body)" by auto
  from False hd have "dropWhile P (body @ r) = body @ r"
    by (cases body) simp_all
  with assms(1) have 1: "dropWhile P (l @ body @ r) = body @ r"
    by (simp add: dropWhile_append2)
  from False last have "dropWhile P (rev body) = rev body"
    by (cases "rev body") (simp_all add: last_rev [symmetric] hd_rev)
  moreover from assms(2) have "dropWhile P (rev r @ rev body) = dropWhile P (rev body)"
    by (intro dropWhile_append2) auto
  ultimately have "dropWhile P (rev (body @ r)) = rev body"
    by simp
  with 1 show ?thesis by (simp add: strip_where_def)
qed

lemma after_first_colon:
  fixes before :: pystr
  assumes "58 \<notin> set before"
  shows "tl (dropWhile (\<lambda>c. c \<noteq> 58) (before @ 58 # rest)) = rest"
proof -
  from assms have "dropWhile (\<lambda>c. c \<noteq> 58) (before @ 58 # rest) = dropWhile (\<lambda>c. c \<noteq> 58) (58 # rest)"
    by (intro dropWhile_append2) auto
  then show ?thesis by simp
qed

lemma hd_replicate_append: "hd (replicate m x @ ys) = (if m = 0 then hd ys else x)"
  by (cases m) simp_all

lemma last_append_replicate: "last (ys @ replicate n x) = (if n = 0 then last ys else x)"
  by (cases n) simp_all

lemma field_value_quoted:
  assumes ws1: "\<forall>c\<in>set ws1. isspace c" and ws2: "\<forall>c\<in>set ws2. isspace c"
    and core: "core = [] \<or> (hd core \<noteq> 34 \<and> last core \<noteq> 34)"
    and m: "m = 0 \<longrightarrow> core = [] \<or> \<not> isspace (hd core)"
    and n: "n = 0 \<longrightarrow> core = [] \<or> \<not> isspace (last core)"
  shows "field_value (ws1 @ replicate m 34 @ core @ replicate n 34 @ ws2) = core"
proof -
  let ?body = "replicate m 34 @ core @ replicate n 34"
  have q: "\<not> isspace 34" by (simp add: isspace_def)
  have hd_body: "?body \<noteq> [] \<Longrightarrow> \<not> isspace (hd ?body)"
    using m q by (cases "core = []") (auto simp: hd_replicate_append hd_append)
  have last_body: "\<not> isspace (last ?body)" if "?body \<noteq> []"
  proof (cases "n = 0")
    case False
    then have "last ((replicate m 34 @ core) @ replicate n 34) = 34"
      by (simp only: last_append_replicate if_False)
    with q show ?thesis by simp
  next
    case True
    show ?thesis
    proof (cases "core = []")
      case False
      with True n show ?thesis by simp
    next
      case core_empty: True
      with True that have "m \<noteq> 0" by simp
      with True core_empty q show ?thesis by simp
    qed
  qed
  have body: "?body = [] \<or> (\<not> isspace (hd ?body) \<and> \<not> isspace (last ?body))"
    using hd_body last_body by blast
  have "strip_where isspace (ws1 @ ?body @ ws2) = ?body"
    by (rule strip_where_sandwich [OF ws1 ws2 body])
  then have 1: "strip (ws1 @ ?body @ ws2) = ?body"
    by (simp only: strip_def)
  have quotes: "\<forall>c\<in>set (replicate k 34). c \<in> set [34::nat]" for k
    by simp
  have core': "core = [] \<or> (\<not> hd core \<in> set [34::nat] \<and> \<not> last core \<in> set [34::nat])"
    using core by simp
  have "strip_where (\<lambda>c. c \<in> set [34]) (replicate m 34 @ core @ replicate n 34) = core"
    by (rule strip_where_sandwich [OF quotes quotes core'])
  then have 2: "strip_chars [34] ?body = core"
    by (simp only: strip_chars_def)
  have "ws1 @ replicate m 34 @ core @ replicate n 34 @ ws2 = ws1 @ ?body @ ws2"
    by simp
  then show ?thesis
    unfolding field_value_def by (simp only: 1 2)
qed

subsection \<open>Links\<close>

lemma github_hrefs_find:
  "\<exists>hrefs. github_hrefs (filter (\<lambda>el. tag_name el = Some (lit ''a'') \<and> tag_get el (lit ''href'') \<noteq> None) els) = Inr hrefs \<and>
     (case hrefs of [] \<Rightarrow> None | first # _ \<Rightarrow> Some first) =
       (case find is_github_anchor els of None \<Rightarrow> None | Some el \<Rightarrow> tag_get el (lit ''href'')) \<and>
     (\<forall>h\<in>set hrefs. str_contains h (lit ''github.com''))"
proof (induction els)
  case Nil
  then show ?case by simp
next
  case (Cons el els)
  then show ?case
    by (cases "tag_get el (lit ''href'')") (auto simp: is_github_anchor_def)
qed

lemma extract_github_link_find:
  assumes "read_text fs file_path = Inr html"
  shows "extract_github_link fs parse file_path =
     Inr (case find is_github_anchor (descendants (parse html)) of
            None \<Rightarrow> None
          | Some el \<Rightarrow> tag_get el (lit ''href''))"
proof -
  from github_hrefs_find [of "descendants (parse html)"] obtain hrefs where
    "github_hrefs (find_all (parse html) (lit ''a'') (lit ''href'')) = Inr hrefs"
    "(case hrefs of [] \<Rightarrow> None | first # _ \<Rightarrow> Some first) =
       (case find is_github_anchor (descendants (parse html)) of
          None \<Rightarrow> None | Some el \<Rightarrow> tag_get el (lit ''href''))"
    unfolding find_all_def by blast
  with assms show ?thesis by (simp add: extract_github_link_def)
qed

lemma extract_github_link_contains:
  assumes "extract_github_link fs parse file_path = Inr (Some link)"
  shows "str_contains link (lit ''github.com'')"
proof -
  from assms obtain html where html: "read_text fs file_path = Inr html"
    by (auto simp: extract_github_link_def split: sum.splits)
  from extract_github_link_find [OF html, of parse] assms
  obtain el where "find is_github_anchor (descendants (parse html)) = Some el"
    and "tag_get el (lit ''href'') = Some link"
    by (auto split: option.splits)
  then show ?thesis
    by (auto simp: find_Some_iff is_github_anchor_def)
qed

lemma font_link_cases:
  "font_link fs parse d n = Inr link \<Longrightarrow> link = [] \<or> str_contains link (lit ''github.com'')"
  by (auto simp: font_link_def extract_github_link_contains split: option.splits sum.splits if_splits)


subsection \<open>The loops of the registry builder\<close>

lemma metadata_pair:
  assumes "get_metadata_entries fs p [a, b] = Inr vs"
  shows "\<exists>x y. vs = [x, y]"
proof -
  from length_get_metadata_entries [OF assms] have "length vs = 2" by simp
  then show ?thesis
    by (cases vs rule: list.exhaust) (auto simp: length_Suc_conv)
qed

lemma font_fields_of_link:
  assumes "font_link fs parse d n = Inr link"
    and "get_metadata_entries fs (metadata_path d n) [lit ''name'', lit ''display_name''] = Inr vs"
  shows "font_fields fs parse d n = Inr (vs ! 0, vs ! 1, link)"
proof -
  from metadata_pair [OF assms(2)] obtain x y where "vs = [x, y]" by blast
  with assms show ?thesis
    by (simp add: font_fields_def subscript_def)
qed


lemma font_entry_link:
  assumes "font_entry fs parse d n = Inr entry"
  shows "\<exists>link. font_link fs parse d n = Inr link \<and> entry (lit ''link'') = Some link \<and>
           dom entry = {lit ''name'', lit ''display_name'', lit ''link''}"
proof -
  from assms obtain name display_name link where
    fields: "font_fields fs parse d n = Inr (name, display_name, link)"
    and entry: "entry = make_entry name display_name link"
    by (auto simp: font_entry_def split: sum.splits)
  from fields have "font_link fs parse d n = Inr link"
    by (auto simp: font_fields_def split: sum.splits)
  with entry show ?thesis
    by (auto simp: make_entry_def)
qed

lemma process_subdirs_Cons_Inr:
  assumes "process_subdirs fs parse console d (x # names) reg = Inr reg'"
  shows "(path_is_dir fs (subdir_path d x) = Inr False \<and>
            process_subdirs fs parse console d names reg = Inr reg') \<or>
         (path_is_dir fs (subdir_path d x) = Inr True \<and>
            (\<exists>entry. font_entry fs parse d x = Inr entry \<and>
               process_subdirs fs parse console d names (reg(x \<mapsto> entry)) = Inr reg'))"
  using assms
  by (auto simp: font_entry_def split: sum.splits if_splits prod.splits option.splits)

lemma process_dirs_Cons_Inr:
  assumes "process_dirs fs parse console (d # dirs) reg = Inr reg'"
  shows "(path_exists fs (dir_path d) = Inr False \<and>
            process_dirs fs parse console dirs reg = Inr reg') \<or>
         (path_exists fs (dir_path d) = Inr True \<and>
            (\<exists>names mid. listdir fs (dir_path d) = Inr names \<and>
               process_subdirs fs parse console d names reg = Inr mid \<and>
               process_dirs fs parse console dirs mid = Inr reg'))"
  using assms
  by (auto split: sum.splits if_splits option.splits)

lemma process_subdirs_other:
  assumes "process_subdirs fs parse console d names font_data = Inr font_data'"
    and "n \<notin> set names \<or> path_is_dir fs (subdir_path d n) \<noteq> Inr True"
  shows "font_data' n = font_data n"
  using assms
proof (induction names arbitrary: font_data)
  case Nil
  then show ?case by simp
next
  case (Cons x names)
  from Cons.prems(2) have rest: "n \<notin> set names \<or> path_is_dir fs (subdir_path d n) \<noteq> Inr True"
    by auto
  from process_subdirs_Cons_Inr [OF Cons.prems(1)] show ?case
  proof (elim disjE conjE exE)
    assume "process_subdirs fs parse console d names font_data = Inr font_data'"
    from Cons.IH [OF this rest] show ?thesis .
  next
    fix entry
    assume dir: "path_is_dir fs (subdir_path d x) = Inr True"
      and run: "process_subdirs fs parse console d names (font_data(x \<mapsto> entry)) = Inr font_data'"
    from dir Cons.prems(2) have "x \<noteq> n" by auto
    moreover from Cons.IH [OF run rest] have "font_data' n = (font_data(x \<mapsto> entry)) n" .
    ultimately show ?thesis by simp
  qed
qed

lemma process_subdirs_entry:
  assumes "process_subdirs fs parse console d names font_data = Inr font_data'"
    and "n \<in> set names" and "path_is_dir fs (subdir_path d n) = Inr True"
  shows "\<exists>entry. font_entry fs parse d n = Inr entry \<and> font_data' n = Some entry"
  using assms
proof (induction names arbitrary: font_data)
  case Nil
  then show ?case by simp
next
  case (Cons x names)
  from process_subdirs_Cons_Inr [OF Cons.prems(1)] show ?case
  proof (elim disjE conjE exE)
    assume nodir: "path_is_dir fs (subdir_path d x) = Inr False"
      and run: "process_subdirs fs parse console d names font_data = Inr font_data'"
    from nodir Cons.prems(3) have "x \<noteq> n" by auto
    with Cons.prems(2) have "n \<in> set names" by simp
    from Cons.IH [OF run this Cons.prems(3)] show ?thesis .
  next
    fix entry
    assume entry: "font_entry fs parse d x = Inr entry"
      and run: "process_subdirs fs parse console d names (font_data(x \<mapsto> entry)) = Inr font_data'"
    show ?thesis
    proof (cases "n \<in> set names")
      case True
      from Cons.IH [OF run True Cons.prems(3)] show ?thesis .
    next
      case False
      with Cons.prems(2) have "x = n" by simp
      moreover from process_subdirs_other [OF run, of n] False
      have "font_data' n = (font_data(x \<mapsto> entry)) n" by simp
      ultimately show ?thesis using entry by simp
    qed
  qed
qed

lemma process_subdirs_provenance:
  assumes "process_subdirs fs parse console d names font_data = Inr font_data'"
    and "font_data' n = Some entry"
  shows "font_data n = Some entry \<or>
         (n \<in> set names \<and> path_is_dir fs (subdir_path d n) = Inr True \<and>
          font_entry fs parse d n = Inr entry)"
proof (cases "n \<in> set names \<and> path_is_dir fs (subdir_path d n) = Inr True")
  case True
  with process_subdirs_entry [OF assms(1), of n] assms(2) show ?thesis by auto
next
  case False
  then have "n \<notin> set names \<or> path_is_dir fs (subdir_path d n) \<noteq> Inr True" by blast
  from process_subdirs_other [OF assms(1) this] assms(2) show ?thesis by simp
qed

lemma process_dirs_other:
  assumes "process_dirs fs parse console dirs font_data = Inr font_data'"
    and "\<forall>d\<in>set dirs. \<not> has_subdir fs d n"
  shows "font_data' n = font_data n"
  using assms
proof (induction dirs arbitrary: font_data)
  case Nil
  then show ?case by simp
next
  case (Cons d dirs)
  from Cons.prems(2) have rest: "\<forall>d\<in>set dirs. \<not> has_subdir fs d n" by simp
  from process_dirs_Cons_Inr [OF Cons.prems(1)] show ?case
  proof (elim disjE conjE exE)
    assume "process_dirs fs parse console dirs font_data = Inr font_data'"
    from Cons.IH [OF this rest] show ?thesis .
  next
    fix names mid
    assume ex: "path_exists fs (dir_path d) = Inr True"
      and names: "listdir fs (dir_path d) = Inr names"
      and mid: "process_subdirs fs parse console d names font_data = Inr mid"
      and run: "process_dirs fs parse console dirs mid = Inr font_data'"
    from Cons.prems(2) ex names
    have "n \<notin> set names \<or> path_is_dir fs (subdir_path d n) \<noteq> Inr True"
      by (auto simp: has_subdir_def)
    from process_subdirs_other [OF mid this] have "mid n = font_data n" .
    moreover from Cons.IH [OF run rest] have "font_data' n = mid n" .
    ultimately show ?thesis by simp
  qed
qed

lemma process_dirs_last:
  assumes "process_dirs fs parse console (pre @ d # post) font_data = Inr font_data'"
    and "has_subdir fs d n"
    and "\<forall>d'\<in>set post. \<not> has_subdir fs d' n"
  shows "\<exists>entry. font_entry fs parse d n = Inr entry \<and> font_data' n = Some entry"
  using assms(1)
proof (induction pre arbitrary: font_data)
  case Nil
  from assms(2) obtain names where
    ex: "path_exists fs (dir_path d) = Inr True" and names: "listdir fs (dir_path d) = Inr names"
    and n: "n \<in> set names" and dir: "path_is_dir fs (subdir_path d n) = Inr True"
    by (auto simp: has_subdir_def split: sum.splits)
  from Nil have "process_dirs fs parse console (d # post) font_data = Inr font_data'" by simp
  from process_dirs_Cons_Inr [OF this] ex names obtain mid where
    mid: "process_subdirs fs parse console d names font_data = Inr mid"
    and rest: "process_dirs fs parse console post mid = Inr font_data'"
    by auto
  from process_subdirs_entry [OF mid n dir] obtain entry where
    "font_entry fs parse d n = Inr entry" "mid n = Some entry" by blast
  moreover from process_dirs_other [OF rest assms(3)] have "font_data' n = mid n" .
  ultimately show ?case by simp
next
  case (Cons x pre)
  then have "process_dirs fs parse console (x # pre @ d # post) font_data = Inr font_data'"
    by simp
  from process_dirs_Cons_Inr [OF this] Cons.IH show ?case by blast
qed

lemma process_dirs_provenance:
  assumes "process_dirs fs parse console dirs font_data = Inr font_data'"
    and "font_data' n = Some entry"
  shows "font_data n = Some entry \<or>
         (\<exists>d\<in>set dirs. has_subdir fs d n \<and> font_entry fs parse d n = Inr entry)"
  using assms
proof (induction dirs arbitrary: font_data)
  case Nil
  then show ?case by simp
next
  case (Cons d dirs)
  from process_dirs_Cons_Inr [OF Cons.prems(1)] show ?case
  proof (elim disjE conjE exE)
    assume "process_dirs fs parse console dirs font_data = Inr font_data'"
    from Cons.IH [OF this Cons.prems(2)] show ?thesis by auto
  next
    fix names mid
    assume ex: "path_exists fs (dir_path d) = Inr True"
      and names: "listdir fs (dir_path d) = Inr names"
      and mid: "process_subdirs fs parse console d names font_data = Inr mid"
      and run: "process_dirs fs parse console dirs mid = Inr font_data'"
    from Cons.IH [OF run Cons.prems(2)] show ?thesis
    proof
      assume "mid n = Some entry"
      from process_subdirs_provenance [OF mid this] ex names show ?thesis
        by (auto simp: has_subdir_def)
    next
      assume "\<exists>d\<in>set dirs. has_subdir fs d n \<and> font_entry fs parse d n = Inr entry"
      then show ?thesis by auto
    qed
  qed
qed

lemma links_ok_update:
  assumes "links_ok r" and "font_entry fs parse d n = Inr entry"
  shows "links_ok (r(k \<mapsto> entry))"
proof -
  from font_entry_link [OF assms(2)] obtain link where
    "font_link fs parse d n = Inr link" "entry (lit ''link'') = Some link"
    "dom entry = {lit ''name'', lit ''display_name'', lit ''link''}" by blast
  moreover from this(1) have "link = [] \<or> str_contains link (lit ''github.com'')"
    by (rule font_link_cases)
  ultimately show ?thesis
    using assms(1) unfolding links_ok_def by (auto simp del: dom_eq_empty_conv)
qed

lemma process_subdirs_links_ok:
  "process_subdirs fs parse console d names font_data = Inr font_data' \<Longrightarrow> links_ok font_data \<Longrightarrow>
     links_ok font_data'"
proof (induction names arbitrary: font_data)
  case Nil
  then show ?case by simp
next
  case (Cons x names)
  from process_subdirs_Cons_Inr [OF Cons.prems(1)] show ?case
  proof (elim disjE conjE exE)
    assume "process_subdirs fs parse console d names font_data = Inr font_data'"
    from Cons.IH [OF this Cons.prems(2)] show ?thesis .
  next
    fix entry
    assume entry: "font_entry fs parse d x = Inr entry"
      and run: "process_subdirs fs parse console d names (font_data(x \<mapsto> entry)) = Inr font_data'"
    from Cons.IH [OF run links_ok_update [OF Cons.prems(2) entry]] show ?thesis .
  qed
qed

lemma process_dirs_links_ok:
  "process_dirs fs parse console dirs font_data = Inr font_data' \<Longrightarrow> links_ok font_data \<Longrightarrow>
     links_ok font_data'"
proof (induction dirs arbitrary: font_data)
  case Nil
  then show ?case by simp
next
  case (Cons x dirs)
  from process_dirs_Cons_Inr [OF Cons.prems(1)] show ?case
  proof (elim disjE conjE exE)
    assume "process_dirs fs parse console dirs font_data = Inr font_data'"
    from Cons.IH [OF this Cons.prems(2)] show ?thesis .
  next
    fix names mid
    assume mid: "process_subdirs fs parse console x names font_data = Inr mid"
      and run: "process_dirs fs parse console dirs mid = Inr font_data'"
    from Cons.IH [OF run process_subdirs_links_ok [OF mid Cons.prems(2)]] show ?thesis .
  qed
qed

subsection \<open>A read failure and the run\<close>

lemma with_lines_fields:
  "path_exists (with_lines fs p lines) = path_exists fs"
  "path_is_dir (with_lines fs p lines) = path_is_dir fs"
  "path_str (with_lines fs p lines) = path_str fs"
  "listdir (with_lines fs p lines) = listdir fs"
  "read_text (with_lines fs p lines) = read_text fs"
  by (simp_all add: with_lines_def)

lemma with_lines_try_read:
  assumes "read_lines fs p = (lines, failure)"
  shows "fst (try_read (with_lines fs p lines) q entries) = fst (try_read fs q entries)"
proof (cases "q = p")
  case True
  have "read_lines (with_lines fs p lines) p = (lines, None)"
    by (simp add: with_lines_def)
  from try_read_values [OF this] try_read_values [OF assms] True show ?thesis by simp
next
  case False
  then have "read_lines (with_lines fs p lines) q = read_lines fs q"
    by (simp add: with_lines_def)
  then show ?thesis by (simp add: try_read_def)
qed

lemma with_lines_metadata:
  assumes "read_lines fs p = (lines, failure)"
  shows "get_metadata_entries (with_lines fs p lines) q entries = get_metadata_entries fs q entries"
  using with_lines_try_read [OF assms, of q entries]
  by (auto simp: get_metadata_entries_def with_lines_fields split: sum.splits prod.splits)

lemma with_lines_font_fields:
  assumes "read_lines fs p = (lines, failure)"
  shows "font_fields (with_lines fs p lines) parse d n = font_fields fs parse d n"
proof -
  have "get_html_path (with_lines fs p lines) d n = get_html_path fs d n"
    by (simp add: get_html_path_def with_lines_fields split: sum.splits)
  moreover have "extract_github_link (with_lines fs p lines) parse q = extract_github_link fs parse q"
    for q
    by (simp add: extract_github_link_def with_lines_fields split: sum.splits)
  ultimately have "font_link (with_lines fs p lines) parse d n = font_link fs parse d n"
    by (simp add: font_link_def split: sum.splits option.splits)
  then show ?thesis
    by (simp add: font_fields_def with_lines_metadata [OF assms] split: sum.splits)
qed

lemma with_lines_process_subdirs:
  assumes "read_lines fs p = (lines, failure)"
  shows "process_subdirs (with_lines fs p lines) parse console d names font_data =
         process_subdirs fs parse console d names font_data"
  by (induction names arbitrary: font_data)
    (simp_all add: with_lines_fields with_lines_font_fields [OF assms]
      split: sum.splits prod.splits option.splits)

lemma with_lines_process_dirs:
  assumes "read_lines fs p = (lines, failure)"
  shows "process_dirs (with_lines fs p lines) parse console dirs font_data =
         process_dirs fs parse console dirs font_data"
  by (induction dirs arbitrary: font_data)
    (simp_all add: with_lines_fields with_lines_process_subdirs [OF assms] skip_message_def
      split: sum.splits prod.splits option.splits)

subsection \<open>The example trees, evaluated\<close>

lemmas path_defs = article_path_def desc_path_def metadata_path_def subdir_path_def dir_path_def
  BASE_PATH_def DIRS_def lit_def

lemmas metadata_defs = get_metadata_entries_def try_read_def startswith_def subscript_def
  split_once_def field_value_def strip_def strip_chars_def strip_where_def isspace_def
  dict_get_def

lemmas link_defs = font_link_def get_html_path_def extract_github_link_def find_all_def
  str_contains_def sublist_Cons_right demo_parse_def demo_html_def plain_html_def demo_soup_def
  plain_soup_def

lemma demo_metadata_ofl:
  "get_metadata_entries demo_fs (metadata_path (lit ''ofl'') (lit ''foo''))
     [lit ''name'', lit ''display_name''] = Inr [lit ''Second'', lit ''x'']"
  by (simp add: demo_fs_def path_defs metadata_defs)

lemma demo_metadata_ufl:
  "get_metadata_entries demo_fs (metadata_path (lit ''ufl'') (lit ''foo''))
     [lit ''name'', lit ''display_name''] = Inr [lit ''Foo'', []]"
  by (simp add: demo_fs_def path_defs metadata_defs)

lemma demo_link_ofl: "font_link demo_fs demo_parse (lit ''ofl'') (lit ''foo'') = Inr []"
  by (simp add: demo_fs_def path_defs link_defs)

lemma demo_link_ufl:
  "font_link demo_fs demo_parse (lit ''ufl'') (lit ''foo'') = Inr (lit ''https://github.com/org/repo'')"
  by (simp add: demo_fs_def path_defs link_defs)

lemma demo_fields_ofl:
  "font_fields demo_fs demo_parse (lit ''ofl'') (lit ''foo'') = Inr (lit ''Second'', lit ''x'', [])"
  using font_fields_of_link [OF demo_link_ofl demo_metadata_ofl] by simp

lemma demo_fields_ufl:
  "font_fields demo_fs demo_parse (lit ''ufl'') (lit ''foo'') =
     Inr (lit ''Foo'', [], lit ''https://github.com/org/repo'')"
  using font_fields_of_link [OF demo_link_ufl demo_metadata_ufl] by simp

lemma demo_entry_ufl:
  "font_entry demo_fs demo_parse (lit ''ufl'') (lit ''foo'') =
     Inr [lit ''name'' \<mapsto> lit ''Foo'',
          lit ''display_name'' \<mapsto> [],
          lit ''link'' \<mapsto> lit ''https://github.com/org/repo'']"
  by (simp add: font_entry_def demo_fields_ufl make_entry_def)

lemma demo_entry_ofl:
  "font_entry demo_fs demo_parse (lit ''ofl'') (lit ''foo'') =
     Inr [lit ''name'' \<mapsto> lit ''Second'',
          lit ''display_name'' \<mapsto> lit ''x'',
          lit ''link'' \<mapsto> []]"
  by (simp add: font_entry_def demo_fields_ofl make_entry_def)

lemma demo_dirs:
  "path_exists demo_fs (dir_path (lit ''ofl'')) = Inr True"
  "path_exists demo_fs (dir_path (lit ''apache'')) = Inr False"
  "path_exists demo_fs (dir_path (lit ''ufl'')) = Inr True"
  "listdir demo_fs (dir_path (lit ''ofl'')) = Inr [lit ''foo'', lit ''LICENSE.txt'']"
  "listdir demo_fs (dir_path (lit ''ufl'')) = Inr [lit ''foo'']"
  "path_is_dir demo_fs (subdir_path (lit ''ofl'') (lit ''foo'')) = Inr True"
  "path_is_dir demo_fs (subdir_path (lit ''ofl'') (lit ''LICENSE.txt'')) = Inr False"
  "path_is_dir demo_fs (subdir_path (lit ''ufl'') (lit ''foo'')) = Inr True"
  by (simp_all add: demo_fs_def path_defs)

lemma demo_main: "main_font_data demo_fs demo_parse plain_console = Inr demo_font_data"
  by (simp add: main_font_data_def DIRS_def demo_dirs demo_fields_ofl demo_fields_ufl
      demo_font_data_def make_entry_def plain_console_def)

section \<open>The properties\<close>

subsection \<open>Metadata Reader\<close>

text \<open>
  C1 (as amended).  The claim says that the first line matching a field wins.  The loop
  stores a value for every line it attributes to a field (\<open>values[entry] = value\<close>), so a
  later line overwrites an earlier one.  A line counts for \<open>entry\<close> when \<open>entry\<close> is the
  first requested field whose name followed by a colon starts the line.  When \<open>line\<close> is
  the last line of the file that counts for \<open>entry\<close>, the value returned for \<open>entry\<close> is the
  one taken from \<open>line\<close>, whatever the lines before it hold.
\<close>

theorem metadata_last_match_wins:
  assumes "path_exists fs p = Inr True"
    and "read_lines fs p = (pre @ line # post, failure)"
    and "find (\<lambda>e. startswith line (e @ lit '':'')) entries = Some entry"
    and "\<forall>l\<in>set post. find (\<lambda>e. startswith l (e @ lit '':'')) entries \<noteq> Some entry"
    and "i < length entries" and "entries ! i = entry"
  shows "\<exists>vs. get_metadata_entries fs p entries = Inr vs \<and>
           vs ! i = field_value (tl (dropWhile (\<lambda>c. c \<noteq> 58) line))"
proof -
  let ?v = "field_value (tl (dropWhile (\<lambda>c. c \<noteq> 58) line))"
  let ?before = "fst (scan_lines entries pre Map.empty)"
  have "fst (scan_lines entries (pre @ line # post) Map.empty) entry =
          fst (scan_lines entries post (?before(entry \<mapsto> ?v))) entry"
    using assms(3) by (simp add: scan_lines_append scan_entries_find)
  also have "\<dots> = Some ?v"
    using assms(4) by (simp add: scan_lines_unmatched)
  finally have "dict_get (fst (scan_lines entries (pre @ line # post) Map.empty)) entry [] = ?v"
    by (simp add: dict_get_def)
  with assms(5,6) get_metadata_entries_values [OF assms(1,2), of entries] show ?thesis
    by simp
qed

theorem metadata_last_match_wins_witness:
  "\<exists>vs. get_metadata_entries
          (single_file_fs [lit ''METADATA.pb'']
             ([lit ''a: y\<newline>''] @ lit ''a: z\<newline>'' # [lit ''a:b: w\<newline>'']) None)
          [lit ''METADATA.pb''] [lit ''a:b'', lit ''a''] = Inr vs \<and>
        vs ! 1 = lit ''z''"
proof -
  let ?fs = "single_file_fs [lit ''METADATA.pb'']
             ([lit ''a: y\<newline>''] @ lit ''a: z\<newline>'' # [lit ''a:b: w\<newline>'']) None"
  let ?line = "lit ''a: z\<newline>''"
  have a: "path_exists ?fs [lit ''METADATA.pb''] = Inr True"
    by (simp add: single_file_fs_def)
  have b: "read_lines ?fs [lit ''METADATA.pb''] =
     ([lit ''a: y\<newline>''] @ ?line # [lit ''a:b: w\<newline>''], None)"
    by (simp add: single_file_fs_def)
  have c: "find (\<lambda>e. startswith ?line (e @ lit '':'')) [lit ''a:b'', lit ''a''] = Some (lit ''a'')"
    by (simp add: startswith_def lit_def)
  have d: "\<forall>l\<in>set [lit ''a:b: w\<newline>''].
      find (\<lambda>e. startswith l (e @ lit '':'')) [lit ''a:b'', lit ''a''] \<noteq> Some (lit ''a'')"
    by (simp add: startswith_def lit_def)
  have e: "1 < length [lit ''a:b'', lit ''a'']"
    by simp
  have f: "[lit ''a:b'', lit ''a''] ! 1 = lit ''a''"
    by simp
  have g: "field_value (tl (dropWhile (\<lambda>c. c \<noteq> 58) ?line)) = lit ''z''"
    by (simp add: lit_def metadata_defs)
  from metadata_last_match_wins [OF a b c d e f] g show ?thesis
    by simp
qed

text \<open>
  C1 as stated fails: in a file with the lines \<open>name: "First"\<close> and \<open>name: "Second"\<close>, both
  matching the field \<open>name\<close>, the value of the first line is \<open>First\<close> and the reader
  returns \<open>Second\<close>.
\<close>

theorem metadata_first_match_counterexample:
  "read_lines (single_file_fs [lit ''METADATA.pb'']
       [lit ''name: \"First\"\<newline>'', lit ''name: \"Second\"\<newline>''] None)
     [lit ''METADATA.pb''] =
     ([lit ''name: \"First\"\<newline>'', lit ''name: \"Second\"\<newline>''], None) \<and>
   startswith (lit ''name: \"First\"\<newline>'') (lit ''name'' @ lit '':'') \<and>
   startswith (lit ''name: \"Second\"\<newline>'') (lit ''name'' @ lit '':'') \<and>
   field_value (tl (dropWhile (\<lambda>c. c \<noteq> 58) (lit ''name: \"First\"\<newline>''))) = lit ''First'' \<and>
   get_metadata_entries (single_file_fs [lit ''METADATA.pb'']
       [lit ''name: \"First\"\<newline>'', lit ''name: \"Second\"\<newline>''] None)
     [lit ''METADATA.pb''] [lit ''name''] = Inr [lit ''Second''] \<and>
   get_metadata_entries (single_file_fs [lit ''METADATA.pb'']
       [lit ''name: \"First\"\<newline>'', lit ''name: \"Second\"\<newline>''] None)
     [lit ''METADATA.pb''] [lit ''name''] \<noteq> Inr [lit ''First'']"
  by (simp add: single_file_fs_def lit_def metadata_defs)

text \<open>
  C5.  When the metadata file exists and reading it raises after it has handed over
  \<open>lines\<close>, the reader returns normally: the value of each field is the one stored while
  scanning \<open>lines\<close>, the empty string for a field that was not stored, so the list is all
  empty when the failure comes before any line.  The exception is not seen by the run:
  the reader and the whole of \<open>main\<close> give what they give when the file ends without an
  exception after \<open>lines\<close>.  In particular the loop stores the entry of this font and
  returns, when the link is found and the progress line is printed.
\<close>

theorem metadata_read_failure_swallowed:
  assumes "path_exists fs p = Inr True" and "read_lines fs p = (lines, Some e)"
  shows "get_metadata_entries fs p entries =
           Inr (map (\<lambda>entry. dict_get (fst (scan_lines entries lines Map.empty)) entry [])
                  entries) \<and>
         (lines = [] \<longrightarrow> get_metadata_entries fs p entries = Inr (replicate (length entries) [])) \<and>
         get_metadata_entries fs p entries =
           get_metadata_entries (with_lines fs p lines) p entries \<and>
         main_font_data fs parse console = main_font_data (with_lines fs p lines) parse console \<and>
         (p = metadata_path d n \<and> path_is_dir fs (subdir_path d n) = Inr True \<and>
          font_link fs parse d n = Inr link \<and>
          get_metadata_entries fs p [lit ''name'', lit ''display_name''] = Inr [name, display_name] \<and>
          console (processed_message n name display_name link) = None \<longrightarrow>
            process_subdirs fs parse console d [n] font_data =
              Inr (font_data(n \<mapsto> make_entry name display_name link)))"
proof -
  note vals = get_metadata_entries_values [OF assms, of entries]
  have empty: "get_metadata_entries fs p entries = Inr (replicate (length entries) [])"
    if "lines = []"
    using vals that by (simp add: dict_get_def map_replicate_const)
  have same: "get_metadata_entries fs p entries =
      get_metadata_entries (with_lines fs p lines) p entries"
    by (simp add: with_lines_metadata [OF assms(2)])
  have main: "main_font_data fs parse console =
      main_font_data (with_lines fs p lines) parse console"
    by (simp add: main_font_data_def with_lines_process_dirs [OF assms(2)])
  have run: "process_subdirs fs parse console d [n] font_data =
      Inr (font_data(n \<mapsto> make_entry name display_name link))"
    if "p = metadata_path d n" "path_is_dir fs (subdir_path d n) = Inr True"
      "font_link fs parse d n = Inr link"
      "get_metadata_entries fs p [lit ''name'', lit ''display_name''] = Inr [name, display_name]"
      "console (processed_message n name display_name link) = None"
  proof -
    from that(1,4) have
      "get_metadata_entries fs (metadata_path d n) [lit ''name'', lit ''display_name''] =
         Inr [name, display_name]"
      by simp
    from font_fields_of_link [OF that(3) this]
    have "font_fields fs parse d n = Inr (name, display_name, link)" by simp
    with that(2,5) show ?thesis by simp
  qed
  from vals empty same main run show ?thesis by blast
qed

theorem metadata_read_failure_swallowed_witness:
  "path_exists demo_fs (metadata_path (lit ''ufl'') (lit ''foo'')) = Inr True \<and>
   read_lines demo_fs (metadata_path (lit ''ufl'') (lit ''foo'')) =
     ([lit ''name: \"Foo\"\<newline>''], Some UnicodeDecodeError) \<and>
   get_metadata_entries demo_fs (metadata_path (lit ''ufl'') (lit ''foo''))
     [lit ''name'', lit ''display_name''] = Inr [lit ''Foo'', []] \<and>
   process_subdirs demo_fs demo_parse plain_console (lit ''ufl'') [lit ''foo''] Map.empty =
     Inr [lit ''foo'' \<mapsto> make_entry (lit ''Foo'') [] (lit ''https://github.com/org/repo'')]"
proof -
  let ?p = "metadata_path (lit ''ufl'') (lit ''foo'')"
  have a: "path_exists demo_fs ?p = Inr True"
    by (simp add: demo_fs_def path_defs)
  have b: "read_lines demo_fs ?p = ([lit ''name: \"Foo\"\<newline>''], Some UnicodeDecodeError)"
    by (simp add: demo_fs_def path_defs)
  note t = metadata_read_failure_swallowed [OF a b, of "[lit ''name'', lit ''display_name'']"
      demo_parse plain_console "lit ''ufl''" "lit ''foo''" "lit ''https://github.com/org/repo''"
      "lit ''Foo''" "[]" Map.empty]
  from t have "get_metadata_entries demo_fs ?p [lit ''name'', lit ''display_name''] =
      Inr (map (\<lambda>entry. dict_get (fst (scan_lines [lit ''name'', lit ''display_name'']
         [lit ''name: \"Foo\"\<newline>''] Map.empty)) entry []) [lit ''name'', lit ''display_name''])"
    by blast
  also have "\<dots> = Inr [lit ''Foo'', []]"
    by (simp add: lit_def metadata_defs)
  finally have c: "get_metadata_entries demo_fs ?p [lit ''name'', lit ''display_name''] =
      Inr [lit ''Foo'', []]" .
  have d: "plain_console (processed_message (lit ''foo'') (lit ''Foo'') []
      (lit ''https://github.com/org/repo'')) = None"
    by (simp add: plain_console_def)
  from t c d demo_dirs(8) demo_link_ufl
  have "process_subdirs demo_fs demo_parse plain_console (lit ''ufl'') [lit ''foo''] Map.empty =
     Inr [lit ''foo'' \<mapsto> make_entry (lit ''Foo'') [] (lit ''https://github.com/org/repo'')]"
    by blast
  with a b c show ?thesis by simp
qed




text \<open>
  C7 (as amended).  The claim says that one layer of quotes is stripped.  \<open>strip('"')\<close>
  removes every leading and every trailing quote: for a matching line whose text after the
  first colon is whitespace, \<open>m\<close> quotes, a core that neither starts nor ends with a
  quote, \<open>n\<close> quotes and whitespace, the recorded value is the core, for any \<open>m\<close> and
  \<open>n\<close>.  Quotes inside the core stay, and so does whitespace between the quotes and the
  core.
\<close>

theorem field_value_strips_every_quote:
  assumes "find (\<lambda>e. startswith line (e @ lit '':'')) entries = Some entry"
    and "line = before @ 58 # ws1 @ replicate m 34 @ core @ replicate n 34 @ ws2"
    and "58 \<notin> set before"
    and "\<forall>c\<in>set ws1. isspace c" and "\<forall>c\<in>set ws2. isspace c"
    and "core = [] \<or> (hd core \<noteq> 34 \<and> last core \<noteq> 34)"
    and "m = 0 \<longrightarrow> core = [] \<or> \<not> isspace (hd core)"
    and "n = 0 \<longrightarrow> core = [] \<or> \<not> isspace (last core)"
  shows "scan_entries line entries vals = Inr (vals(entry \<mapsto> core))"
proof -
  have "tl (dropWhile (\<lambda>c. c \<noteq> 58) line) = ws1 @ replicate m 34 @ core @ replicate n 34 @ ws2"
    using assms(2,3) by (simp add: after_first_colon)
  then have "field_value (tl (dropWhile (\<lambda>c. c \<noteq> 58) line)) = core"
    using assms(4-8) by (simp add: field_value_quoted)
  with assms(1) show ?thesis by (simp add: scan_entries_find)
qed

theorem field_value_strips_every_quote_witness:
  "scan_entries (lit ''name: \"\"a\"b\"\<newline>'') [lit ''name'', lit ''display_name''] Map.empty =
     Inr [lit ''name'' \<mapsto> lit ''a\"b'']"
proof -
  let ?line = "lit ''name: \"\"a\"b\"\<newline>''"
  have a: "find (\<lambda>e. startswith ?line (e @ lit '':'')) [lit ''name'', lit ''display_name''] =
     Some (lit ''name'')"
    by (simp add: startswith_def lit_def)
  have b: "?line = lit ''name'' @ 58 # [32] @ replicate (Suc (Suc 0)) 34 @ lit ''a\"b'' @
     replicate (Suc 0) 34 @ [10]"
    by (simp add: lit_def)
  have c: "58 \<notin> set (lit ''name'')"
    by (simp add: lit_def)
  have d: "\<forall>c\<in>set [32]. isspace c" "\<forall>c\<in>set [10]. isspace c"
    by (simp_all add: isspace_def)
  have e: "lit ''a\"b'' = [] \<or> (hd (lit ''a\"b'') \<noteq> 34 \<and> last (lit ''a\"b'') \<noteq> 34)"
    by (simp add: lit_def)
  have f: "Suc (Suc 0) = 0 \<longrightarrow> lit ''a\"b'' = [] \<or> \<not> isspace (hd (lit ''a\"b''))"
    "Suc 0 = 0 \<longrightarrow> lit ''a\"b'' = [] \<or> \<not> isspace (last (lit ''a\"b''))"
    by simp_all
  from field_value_strips_every_quote [OF a b c d e f, of Map.empty]
  show ?thesis .
qed

text \<open>
  C7 as stated fails: on the line \<open>display_name: ""x""\<close> the text after the colon, without
  its surrounding whitespace, is \<open>""x""\<close>; removing one layer of quotes would leave
  \<open>"x"\<close>, and the recorded value is \<open>x\<close>.
\<close>

theorem one_quote_layer_counterexample:
  "startswith (lit ''display_name: \"\"x\"\"\<newline>'') (lit ''display_name'' @ lit '':'') \<and>
   strip (tl (dropWhile (\<lambda>c. c \<noteq> 58) (lit ''display_name: \"\"x\"\"\<newline>''))) = lit ''\"\"x\"\"'' \<and>
   scan_entries (lit ''display_name: \"\"x\"\"\<newline>'') [lit ''name'', lit ''display_name'']
     Map.empty = Inr [lit ''display_name'' \<mapsto> lit ''x''] \<and>
   scan_entries (lit ''display_name: \"\"x\"\"\<newline>'') [lit ''name'', lit ''display_name'']
     Map.empty \<noteq> Inr [lit ''display_name'' \<mapsto> lit ''\"x\"'']"
proof -
  have 1: "startswith (lit ''display_name: \"\"x\"\"\<newline>'') (lit ''display_name'' @ lit '':'')"
    by (simp add: startswith_def lit_def)
  have 2: "strip (tl (dropWhile (\<lambda>c. c \<noteq> 58) (lit ''display_name: \"\"x\"\"\<newline>''))) =
      lit ''\"\"x\"\"''"
    by (simp add: lit_def metadata_defs)
  have 3: "scan_entries (lit ''display_name: \"\"x\"\"\<newline>'') [lit ''name'', lit ''display_name'']
     Map.empty = Inr [lit ''display_name'' \<mapsto> lit ''x'']"
    by (simp add: lit_def metadata_defs)
  have "[lit ''display_name'' \<mapsto> lit ''x''] (lit ''display_name'') \<noteq>
        [lit ''display_name'' \<mapsto> lit ''\"x\"''] (lit ''display_name'')"
    by (simp add: lit_def)
  then have "[lit ''display_name'' \<mapsto> lit ''x''] \<noteq> [lit ''display_name'' \<mapsto> lit ''\"x\"'']"
    by metis
  with 1 2 3 show ?thesis by simp
qed

subsection \<open>Link Extractor\<close>

text \<open>
  C2.  For a document that can be read, the Link Extractor returns the target of the first
  element in document order that is an anchor with a hyperlink target containing
  \<open>github.com\<close>, and \<open>None\<close> when the document has no such element.  For the document
  with the anchors \<open><a href="https://example.com">x</a>\<close> and
  \<open><a href="https://github.com/org/repo">y</a>\<close> it returns \<open>https://github.com/org/repo\<close>.
\<close>

theorem extract_github_link_first_anchor:
  assumes "read_text fs file_path = Inr html"
  shows "extract_github_link fs parse file_path =
           Inr (case find is_github_anchor (descendants (parse html)) of
                  None \<Rightarrow> None
                | Some el \<Rightarrow> tag_get el (lit ''href'')) \<and>
         ((\<forall>el\<in>set (descendants (parse html)). \<not> is_github_anchor el) \<longrightarrow>
            extract_github_link fs parse file_path = Inr None) \<and>
         (parse html = demo_soup \<longrightarrow>
            extract_github_link fs parse file_path =
              Inr (Some (lit ''https://github.com/org/repo'')))"
proof -
  note first = extract_github_link_find [OF assms, of parse]
  have none: "extract_github_link fs parse file_path = Inr None"
    if "\<forall>el\<in>set (descendants (parse html)). \<not> is_github_anchor el"
  proof -
    from that have "find is_github_anchor (descendants (parse html)) = None"
      by (simp add: find_None_iff)
    with first show ?thesis by simp
  qed
  have demo: "extract_github_link fs parse file_path =
      Inr (Some (lit ''https://github.com/org/repo''))" if "parse html = demo_soup"
  proof -
    have "(case find is_github_anchor (descendants demo_soup) of
             None \<Rightarrow> None
           | Some el \<Rightarrow> tag_get el (lit ''href'')) = Some (lit ''https://github.com/org/repo'')"
      by (simp add: demo_soup_def is_github_anchor_def str_contains_def sublist_Cons_right lit_def)
    with first that show ?thesis by simp
  qed
  from first none demo show ?thesis by blast
qed

theorem extract_github_link_first_anchor_witness:
  "read_text demo_fs (article_path (lit ''ufl'') (lit ''foo'')) = Inr demo_html \<and>
   demo_parse demo_html = demo_soup \<and>
   extract_github_link demo_fs demo_parse (article_path (lit ''ufl'') (lit ''foo'')) =
     Inr (Some (lit ''https://github.com/org/repo''))"
proof -
  have r: "read_text demo_fs (article_path (lit ''ufl'') (lit ''foo'')) = Inr demo_html"
    by (simp add: demo_fs_def path_defs)
  have p: "demo_parse demo_html = demo_soup"
    by (simp add: demo_parse_def)
  from extract_github_link_first_anchor [OF r, of demo_parse] p
  have "extract_github_link demo_fs demo_parse (article_path (lit ''ufl'') (lit ''foo'')) =
     Inr (Some (lit ''https://github.com/org/repo''))"
    by blast
  with r p show ?thesis by simp
qed

subsection \<open>Path Resolver\<close>




subsection \<open>Registry Builder\<close>

text \<open>
  C4.  When a run of \<open>main\<close> completes and \<open>d\<close> is the last category, in the order of
  \<open>DIRS\<close>, that contains a font subdirectory named \<open>n\<close>, the registry maps \<open>n\<close> to the entry
  built for \<open>n\<close> in \<open>d\<close>, as it is: what an earlier category stored under \<open>n\<close> is
  overwritten.
\<close>

theorem registry_last_category_wins:
  assumes "main_font_data fs parse console = Inr font_data"
    and "DIRS = pre @ d # post"
    and "has_subdir fs d n"
    and "\<forall>d'\<in>set post. \<not> has_subdir fs d' n"
  shows "\<exists>entry. font_entry fs parse d n = Inr entry \<and> font_data n = Some entry"
  using assms process_dirs_last [of fs parse console pre d post Map.empty font_data n]
  by (simp add: main_font_data_def)

theorem registry_last_category_wins_witness:
  "has_subdir demo_fs (lit ''ofl'') (lit ''foo'') \<and>
   has_subdir demo_fs (lit ''ufl'') (lit ''foo'') \<and>
   main_font_data demo_fs demo_parse plain_console = Inr demo_font_data \<and>
   (\<exists>entry. font_entry demo_fs demo_parse (lit ''ufl'') (lit ''foo'') = Inr entry \<and>
      demo_font_data (lit ''foo'') = Some entry) \<and>
   font_entry demo_fs demo_parse (lit ''ofl'') (lit ''foo'') \<noteq>
     font_entry demo_fs demo_parse (lit ''ufl'') (lit ''foo'')"
proof -
  have a: "has_subdir demo_fs (lit ''ofl'') (lit ''foo'')"
    by (simp add: has_subdir_def demo_dirs)
  have b: "has_subdir demo_fs (lit ''ufl'') (lit ''foo'')"
    by (simp add: has_subdir_def demo_dirs)
  have c: "DIRS = [lit ''ofl'', lit ''apache''] @ lit ''ufl'' # []"
    by (simp add: DIRS_def)
  have d: "\<forall>d'\<in>set []. \<not> has_subdir demo_fs d' (lit ''foo'')"
    by simp
  note e = registry_last_category_wins [OF demo_main c b d]
  have "[lit ''name'' \<mapsto> lit ''Second'', lit ''display_name'' \<mapsto> lit ''x'', lit ''link'' \<mapsto> []]
          (lit ''link'') \<noteq>
        [lit ''name'' \<mapsto> lit ''Foo'', lit ''display_name'' \<mapsto> [],
         lit ''link'' \<mapsto> lit ''https://github.com/org/repo''] (lit ''link'')"
    by (simp add: lit_def)
  then have "font_entry demo_fs demo_parse (lit ''ofl'') (lit ''foo'') \<noteq>
     font_entry demo_fs demo_parse (lit ''ufl'') (lit ''foo'')"
    unfolding demo_entry_ofl demo_entry_ufl by (metis sum.inject(2))
  with a b e demo_main show ?thesis by simp
qed

text \<open>
  C8 (as amended).  The claim holds for a category for which \<open>exists()\<close> answers \<open>False\<close>
  and whose warning is printed: processing it returns the registry as it was, and the
  loop goes on with the categories after it.  In the registry of a completed run every
  entry comes from a category that exists and holds a directory of that name, so none
  comes from a category that is absent.  In a category that exists, an entry for which
  \<open>is_dir()\<close> answers \<open>False\<close> is passed over in the same way.  The warning is printed as
  rich markup with the path in it, and its exception is not caught: a category is
  skipped without raising only when the console accepts the warning.
\<close>

theorem absent_category_skipped:
  "(path_exists fs (dir_path d) = Inr False \<and> console (skip_message fs d) = None \<longrightarrow>
      process_dirs fs parse console [d] font_data = Inr font_data \<and>
      process_dirs fs parse console (d # dirs) font_data =
        process_dirs fs parse console dirs font_data) \<and>
   (main_font_data fs parse console = Inr registry \<and> registry k = Some entry \<longrightarrow>
      (\<exists>c\<in>set DIRS. path_exists fs (dir_path c) = Inr True \<and> has_subdir fs c k \<and>
         font_entry fs parse c k = Inr entry)) \<and>
   (path_is_dir fs (subdir_path d n) = Inr False \<longrightarrow>
      process_subdirs fs parse console d [n] font_data = Inr font_data \<and>
      process_subdirs fs parse console d (n # names) font_data =
        process_subdirs fs parse console d names font_data)"
proof -
  have "\<exists>c\<in>set DIRS. path_exists fs (dir_path c) = Inr True \<and> has_subdir fs c k \<and>
         font_entry fs parse c k = Inr entry"
    if "main_font_data fs parse console = Inr registry" "registry k = Some entry"
  proof -
    from that(1) have "process_dirs fs parse console DIRS Map.empty = Inr registry"
      by (simp add: main_font_data_def)
    from process_dirs_provenance [OF this that(2)] show ?thesis
      by (auto simp: has_subdir_def)
  qed
  then show ?thesis by simp
qed

theorem absent_category_skipped_witness:
  "path_exists demo_fs (dir_path (lit ''apache'')) = Inr False \<and>
   process_dirs demo_fs demo_parse plain_console [lit ''apache''] demo_font_data =
     Inr demo_font_data \<and>
   process_dirs demo_fs demo_parse plain_console [lit ''apache'', lit ''ufl''] Map.empty =
     process_dirs demo_fs demo_parse plain_console [lit ''ufl''] Map.empty \<and>
   path_is_dir demo_fs (subdir_path (lit ''ofl'') (lit ''LICENSE.txt'')) = Inr False \<and>
   process_subdirs demo_fs demo_parse plain_console (lit ''ofl'') [lit ''LICENSE.txt'']
     demo_font_data = Inr demo_font_data \<and>
   main_font_data demo_fs demo_parse plain_console = Inr demo_font_data \<and>
   (\<exists>c\<in>set DIRS. path_exists demo_fs (dir_path c) = Inr True \<and>
      has_subdir demo_fs c (lit ''foo'') \<and>
      font_entry demo_fs demo_parse c (lit ''foo'') =
        Inr [lit ''name'' \<mapsto> lit ''Foo'', lit ''display_name'' \<mapsto> [],
             lit ''link'' \<mapsto> lit ''https://github.com/org/repo''])"
proof -
  have a: "plain_console (skip_message demo_fs (lit ''apache'')) = None"
    by (simp add: plain_console_def)
  from absent_category_skipped
    [where fs = demo_fs and d = "lit ''apache''" and console = plain_console
      and parse = demo_parse and font_data = demo_font_data and dirs = "[]"]
    demo_dirs(2) a
  have 1: "process_dirs demo_fs demo_parse plain_console [lit ''apache''] demo_font_data =
     Inr demo_font_data"
    by blast
  from absent_category_skipped
    [where fs = demo_fs and d = "lit ''apache''" and console = plain_console
      and parse = demo_parse and font_data = Map.empty and dirs = "[lit ''ufl'']"]
    demo_dirs(2) a
  have 2: "process_dirs demo_fs demo_parse plain_console [lit ''apache'', lit ''ufl''] Map.empty =
     process_dirs demo_fs demo_parse plain_console [lit ''ufl''] Map.empty"
    by blast
  from absent_category_skipped
    [where fs = demo_fs and d = "lit ''ofl''" and n = "lit ''LICENSE.txt''"
      and console = plain_console and parse = demo_parse and font_data = demo_font_data]
    demo_dirs(7)
  have 3: "process_subdirs demo_fs demo_parse plain_console (lit ''ofl'') [lit ''LICENSE.txt'']
     demo_font_data = Inr demo_font_data"
    by blast
  have b: "demo_font_data (lit ''foo'') =
     Some [lit ''name'' \<mapsto> lit ''Foo'', lit ''display_name'' \<mapsto> [],
           lit ''link'' \<mapsto> lit ''https://github.com/org/repo'']"
    by (simp add: demo_font_data_def)
  from absent_category_skipped
    [where fs = demo_fs and console = plain_console and parse = demo_parse
      and registry = demo_font_data and k = "lit ''foo''"]
    demo_main b
  have 4: "\<exists>c\<in>set DIRS. path_exists demo_fs (dir_path c) = Inr True \<and>
      has_subdir demo_fs c (lit ''foo'') \<and>
      font_entry demo_fs demo_parse c (lit ''foo'') =
        Inr [lit ''name'' \<mapsto> lit ''Foo'', lit ''display_name'' \<mapsto> [],
             lit ''link'' \<mapsto> lit ''https://github.com/org/repo'']"
    by blast
  from 1 2 3 demo_dirs(2,7) have
    "path_exists demo_fs (dir_path (lit ''apache'')) = Inr False \<and>
     process_dirs demo_fs demo_parse plain_console [lit ''apache''] demo_font_data =
       Inr demo_font_data \<and>
     process_dirs demo_fs demo_parse plain_console [lit ''apache'', lit ''ufl''] Map.empty =
       process_dirs demo_fs demo_parse plain_console [lit ''ufl''] Map.empty \<and>
     path_is_dir demo_fs (subdir_path (lit ''ofl'') (lit ''LICENSE.txt'')) = Inr False \<and>
     process_subdirs demo_fs demo_parse plain_console (lit ''ofl'') [lit ''LICENSE.txt'']
       demo_font_data = Inr demo_font_data"
    by simp
  with demo_main 4 show ?thesis by blast
qed

text \<open>
  C8 as stated fails: with the script in the directory \<open>/srv/x[/b]\<close> and no category on
  the disk, \<open>exists()\<close> answers \<open>False\<close> for \<open>apache\<close>, the warning holds the closing tag
  \<open>[/b]\<close> of the path, the console raises \<open>MarkupError\<close>, and the run ends with that
  exception instead of skipping the category.
\<close>

theorem absent_category_raises_counterexample:
  "path_exists markup_disk (dir_path (lit ''apache'')) = Inr False \<and>
   skip_message markup_disk (lit ''apache'') =
     lit ''[yellow]Directory /srv/x[/b]/google-fonts/apache does not exist, skipping.[/yellow]'' \<and>
   markup_console (skip_message markup_disk (lit ''apache'')) = Some MarkupError \<and>
   process_dirs markup_disk demo_parse markup_console [lit ''apache''] Map.empty =
     Inl MarkupError \<and>
   main_font_data markup_disk demo_parse markup_console = Inl MarkupError"
proof -
  have a: "path_exists markup_disk (dir_path c) = Inr False"
    if "c \<in> set DIRS" for c
    using that by (auto simp: markup_disk_def empty_disk_def path_defs)
  have b: "skip_message markup_disk (lit ''apache'') =
     lit ''[yellow]Directory /srv/x[/b]/google-fonts/apache does not exist, skipping.[/yellow]''"
    by (simp add: skip_message_def markup_disk_def empty_disk_def path_defs)
  have c: "markup_console (skip_message markup_disk c) = Some MarkupError" for c
    by (simp add: skip_message_def markup_disk_def empty_disk_def markup_console_def
        str_contains_def lit_def sublist_append sublist_Cons_right)
  have d: "process_dirs markup_disk demo_parse markup_console [lit ''apache''] Map.empty =
     Inl MarkupError"
    using a [of "lit ''apache''"] c [of "lit ''apache''"] by (simp add: DIRS_def)
  have e: "main_font_data markup_disk demo_parse markup_console = Inl MarkupError"
    using a [of "lit ''ofl''"] c [of "lit ''ofl''"] by (simp add: main_font_data_def DIRS_def)
  have f: "path_exists markup_disk (dir_path (lit ''apache'')) = Inr False"
    by (rule a) (simp add: DIRS_def)
  from f b c [of "lit ''apache''"] d e show ?thesis by blast
qed



text \<open>
  C10.  In the registry of a completed run, the link of every entry is the empty string or
  contains \<open>github.com\<close>.
\<close>

theorem registry_links_are_github:
  assumes "main_font_data fs parse console = Inr font_data" and "font_data k = Some entry"
  shows "\<exists>link. entry (lit ''link'') = Some link \<and>
           (link = [] \<or> str_contains link (lit ''github.com''))"
proof -
  have "links_ok Map.empty" by (simp add: links_ok_def)
  with assms(1) have "links_ok font_data"
    unfolding main_font_data_def by (rule process_dirs_links_ok)
  with assms(2) show ?thesis
    unfolding links_ok_def by blast
qed

theorem registry_links_are_github_witness:
  "main_font_data demo_fs demo_parse plain_console = Inr demo_font_data \<and>
   demo_font_data (lit ''foo'') =
     Some [lit ''name'' \<mapsto> lit ''Foo'', lit ''display_name'' \<mapsto> [],
           lit ''link'' \<mapsto> lit ''https://github.com/org/repo''] \<and>
   (\<exists>link. [lit ''name'' \<mapsto> lit ''Foo'', lit ''display_name'' \<mapsto> [],
            lit ''link'' \<mapsto> lit ''https://github.com/org/repo''] (lit ''link'') = Some link \<and>
      (link = [] \<or> str_contains link (lit ''github.com'')))"
proof -
  have a: "demo_font_data (lit ''foo'') =
     Some [lit ''name'' \<mapsto> lit ''Foo'', lit ''display_name'' \<mapsto> [],
           lit ''link'' \<mapsto> lit ''https://github.com/org/repo'']"
    by (simp add: demo_font_data_def)
  from registry_links_are_github [OF demo_main a] demo_main a show ?thesis by blast
qed

end
